theory Spec2Isabelle
  imports Main
begin

section \<open>Station rotation: the pairing engine of \<open>app.py\<close>\<close>

text \<open>
  The development embeds the class \<open>ProductionRotation\<close> of \<open>src/app.py\<close> and the
  validation step of \<open>main\<close>. Python integers are \<open>int\<close>, line codes are strings, the two
  dictionaries of the engine are maps from line codes to lists of station numbers.
\<close>

subsection \<open>Rendering integers: Python's \<open>str\<close> on \<open>int\<close> and the f-string of a pair\<close>

definition digit_char :: "nat \<Rightarrow> char" where
  "digit_char d = ''0123456789'' ! d"

text \<open>Decimal digits of a natural number, most significant first, no leading zero.\<close>

fun str_nat :: "nat \<Rightarrow> string" where
  "str_nat n = (if n < 10 then [digit_char n] else str_nat (n div 10) @ [digit_char (n mod 10)])"

declare str_nat.simps [simp del]

definition str_int :: "int \<Rightarrow> string" where
  "str_int i = (if i < 0 then CHR ''-'' # str_nat (nat (- i)) else str_nat (nat i))"

text \<open>The f-string \<^verbatim>\<open>f"{a}-{b}"\<close>.\<close>

definition pair_label :: "int \<Rightarrow> int \<Rightarrow> string" where
  "pair_label a b = str_int a @ ''-'' @ str_int b"

subsection \<open>Reading a label back\<close>

text \<open>
  The claims speak of the stations that occur in an emitted label. The reader below is the
  inverse of \<open>pair_label\<close> (lemma \<open>read_label_pair_label\<close>); it is used only to state
  which stations a label mentions.
\<close>

definition digit_val :: "char \<Rightarrow> nat" where
  "digit_val c = of_char c - 48"

definition nat_of_digits :: "string \<Rightarrow> nat" where
  "nat_of_digits s = foldl (\<lambda>acc c. 10 * acc + digit_val c) 0 s"

definition int_of_str :: "string \<Rightarrow> int" where
  "int_of_str s =
     (case s of
        [] \<Rightarrow> 0
      | c # r \<Rightarrow> if c = CHR ''-'' then - int (nat_of_digits r) else int (nat_of_digits s))"

definition not_dash :: "char \<Rightarrow> bool" where
  "not_dash c = (c \<noteq> CHR ''-'')"

definition read_label :: "string \<Rightarrow> int \<times> int" where
  "read_label l =
     (case l of
        [] \<Rightarrow> (0, 0)
      | c # r \<Rightarrow>
          if c = CHR ''-''
          then (- int (nat_of_digits (takeWhile not_dash r)),
                int_of_str (drop 1 (dropWhile not_dash r)))
          else (int (nat_of_digits (takeWhile not_dash l)),
                int_of_str (drop 1 (dropWhile not_dash l))))"

definition mentions :: "int \<Rightarrow> string \<Rightarrow> bool" where
  "mentions s l = (s = fst (read_label l) \<or> s = snd (read_label l))"

definition is_self_pair :: "string \<Rightarrow> bool" where
  "is_self_pair l = (fst (read_label l) = snd (read_label l))"

text \<open>The number of entries of a schedule line that mention station \<open>s\<close>.\<close>

definition occurrences :: "int \<Rightarrow> string list \<Rightarrow> nat" where
  "occurrences s out = length (filter (mentions s) out)"

subsection \<open>The engine state\<close>

definition LINES :: "string list" where
  "LINES = [''B'', ''C'', ''L'', ''M'', ''N'', ''O'']"

definition STATIONS :: "int list" where
  "STATIONS = [1..20]"

record ProductionRotation =
  lines :: "string list"
  stations :: "int list"
  non_operational_stations :: "string \<rightharpoonup> int list"
  fixed_stations :: "string \<rightharpoonup> int list"

text \<open>\<^verbatim>\<open>__init__\<close>: both dictionaries start empty.\<close>

definition init :: ProductionRotation where
  "init = \<lparr>lines = LINES, stations = STATIONS,
           non_operational_stations = Map.empty, fixed_stations = Map.empty\<rparr>"

text \<open>\<^verbatim>\<open>d.get(k, default)\<close>.\<close>

definition dict_get :: "('k \<rightharpoonup> 'v) \<Rightarrow> 'k \<Rightarrow> 'v \<Rightarrow> 'v" where
  "dict_get d k dflt = (case d k of None \<Rightarrow> dflt | Some v \<Rightarrow> v)"

text \<open>\<^verbatim>\<open>sorted(list(set(xs)))\<close>.\<close>

definition sorted_set :: "int list \<Rightarrow> int list" where
  "sorted_set xs = sort (remdups xs)"

definition set_non_operational :: "ProductionRotation \<Rightarrow> string \<Rightarrow> int list \<Rightarrow> ProductionRotation" where
  "set_non_operational self line sts =
     self\<lparr>non_operational_stations := (non_operational_stations self)(line \<mapsto> sorted_set sts)\<rparr>"

definition set_fixed :: "ProductionRotation \<Rightarrow> string \<Rightarrow> int list \<Rightarrow> ProductionRotation" where
  "set_fixed self line sts =
     self\<lparr>fixed_stations := (fixed_stations self)(line \<mapsto> sorted_set sts)\<rparr>"

definition get_operational_stations :: "ProductionRotation \<Rightarrow> string \<Rightarrow> int list" where
  "get_operational_stations self line =
     (let non_op_for_line = dict_get (non_operational_stations self) line []
      in sort (filter (\<lambda>s. s \<notin> set non_op_for_line) (stations self)))"

subsection \<open>Mirror pairing\<close>

text \<open>
  The \<^verbatim>\<open>for i in range(n // 2)\<close> loop appends one label per index; the indices \<open>i\<close> and
  \<open>n - 1 - i\<close> it reads are below \<open>n\<close> (lemma \<open>mirror_indices_in_range\<close>), so no read is
  out of range.
\<close>

definition mirror_pair :: "int list \<Rightarrow> string list" where
  "mirror_pair stations_to_pair =
     (let sorted_stations = sorted_set stations_to_pair;
          n = length sorted_stations;
          pairs = foldl (\<lambda>pairs i. pairs @ [pair_label (sorted_stations ! i) (sorted_stations ! (n - 1 - i))])
                    [] [0..<n div 2]
      in if n mod 2 \<noteq> 0
         then pairs @ [pair_label (sorted_stations ! (n div 2)) (sorted_stations ! (n div 2))]
         else pairs)"

definition generate_pairs :: "ProductionRotation \<Rightarrow> string \<Rightarrow> string list" where
  "generate_pairs self line =
     (if line = ''C'' then
        (let fixed_c_stations_input = dict_get (fixed_stations self) ''C'' [];
             valid_fixed = filter (\<lambda>s. s \<in> set (stations self)) fixed_c_stations_input;
             pairs = map (\<lambda>s_fixed. pair_label s_fixed s_fixed) valid_fixed;
             non_op_for_c = dict_get (non_operational_stations self) ''C'' [];
             remaining = filter (\<lambda>s. s \<notin> set valid_fixed \<and> s \<notin> set non_op_for_c) (stations self)
         in if remaining = [] \<and> valid_fixed = [] then []
            else if remaining \<noteq> [] then pairs @ mirror_pair remaining
            else pairs)
      else
        (let operational_stations = get_operational_stations self line
         in if operational_stations = [] then [] else mirror_pair operational_stations))"

text \<open>
  \<^verbatim>\<open>generate_schedule\<close>: the date stamp comes from the clock and is a parameter here; the
  loop over \<open>self.lines\<close> fills the dictionary one line at a time.
\<close>

definition generate_schedule :: "ProductionRotation \<Rightarrow> string \<Rightarrow> string \<times> (string \<rightharpoonup> string list)" where
  "generate_schedule self date_str =
     (date_str,
      foldl (\<lambda>schedule_data line_code. schedule_data(line_code \<mapsto> generate_pairs self line_code))
        Map.empty (lines self))"

subsection \<open>The caller: validation before generation\<close>

text \<open>
  The part of the session state that \<^verbatim>\<open>main\<close> hands to the engine after a submit:
  the unavailable stations per line and the accommodated (fixed) stations of line C.
\<close>

record session_state =
  non_operational :: "string \<rightharpoonup> int list"
  accommodation_c :: "int list"

text \<open>
  \<^verbatim>\<open>validate_line_c_configuration\<close> returns \<open>False\<close> after showing an error message that
  lists the common stations in ascending order; the error value carries that list.
\<close>

datatype error = ConfigurationConflict "int list"

definition validate_line_c_configuration :: "session_state \<Rightarrow> error + unit" where
  "validate_line_c_configuration ss =
     (let final_accommodated = set (accommodation_c ss);
          final_unavailable = set (dict_get (non_operational ss) ''C'' []);
          common = final_accommodated \<inter> final_unavailable
      in if common \<noteq> {} then Inl (ConfigurationConflict (sorted_list_of_set common)) else Inr ())"

text \<open>
  The branch of \<^verbatim>\<open>main\<close> taken after a submit: validate, return at once when the
  validation fails, otherwise configure a fresh engine and generate the schedule.
\<close>

definition main_submitted :: "session_state \<Rightarrow> string \<Rightarrow> error + (string \<times> (string \<rightharpoonup> string list))" where
  "main_submitted ss date_str =
     (case validate_line_c_configuration ss of
        Inl e \<Rightarrow> Inl e
      | Inr _ \<Rightarrow>
          (let h = foldl (\<lambda>h line_code.
                       set_non_operational h line_code (dict_get (non_operational ss) line_code []))
                     init LINES;
               h' = set_fixed h ''C'' (accommodation_c ss)
           in Inr (generate_schedule h' date_str)))"

subsection \<open>The pairs as numbers\<close>

text \<open>
  The pairs that mirror pairing forms over a sequence \<open>S\<close>, before they are rendered: the
  element at index \<open>i\<close> with the one at \<open>length S - 1 - i\<close>, then the middle element
  with itself when the length is odd. Lemma \<open>mirror_pair_eq\<close> shows that \<open>mirror_pair\<close>
  renders exactly these pairs.
\<close>

definition mirror_nums :: "int list \<Rightarrow> (int \<times> int) list" where
  "mirror_nums S = map (\<lambda>i. (S ! i, S ! (length S - 1 - i))) [0..<length S div 2]
     @ (if odd (length S) then [(S ! (length S div 2), S ! (length S div 2))] else [])"

section \<open>Properties\<close>

subsection \<open>Labels can be read back\<close>

lemma digit_val_digit_char: "d < 10 \<Longrightarrow> digit_val (digit_char d) = d"
  unfolding digit_val_def digit_char_def
  by (auto simp: less_Suc_eq numeral_eq_Suc nth_Cons')

lemma digit_char_not_dash: "d < 10 \<Longrightarrow> digit_char d \<noteq> CHR ''-''"
  unfolding digit_char_def
  by (auto simp: less_Suc_eq numeral_eq_Suc nth_Cons')

lemma nat_of_digits_str_nat: "nat_of_digits (str_nat n) = n"
proof (induction n rule: str_nat.induct)
  case (1 n)
  show ?case
  proof (cases "n < 10")
    case True
    then show ?thesis
      by (simp add: str_nat.simps[of n] nat_of_digits_def digit_val_digit_char)
  next
    case False
    with 1 have "nat_of_digits (str_nat (n div 10)) = n div 10" by simp
    with False show ?thesis
      by (simp add: str_nat.simps[of n] nat_of_digits_def digit_val_digit_char)
  qed
qed

lemma str_nat_no_dash: "CHR ''-'' \<notin> set (str_nat n)"
proof (induction n rule: str_nat.induct)
  case (1 n)
  show ?case
  proof (cases "n < 10")
    case True
    then show ?thesis
      using digit_char_not_dash[of n] by (auto simp add: str_nat.simps[of n])
  next
    case False
    with 1 have "CHR ''-'' \<notin> set (str_nat (n div 10))" by simp
    with False show ?thesis
      using digit_char_not_dash[of "n mod 10"] by (auto simp add: str_nat.simps[of n])
  qed
qed

lemma str_nat_nonempty: "str_nat n \<noteq> []"
  by (simp add: str_nat.simps[of n])


lemma int_of_str_str_int: "int_of_str (str_int i) = i"
proof (cases "i < 0")
  case True
  then show ?thesis by (simp add: int_of_str_def str_int_def nat_of_digits_str_nat)
next
  case False
  obtain c r where cr: "str_nat (nat i) = c # r"
    using str_nat_nonempty[of "nat i"] by (cases "str_nat (nat i)") auto
  have "c \<noteq> CHR ''-''" using str_nat_no_dash[of "nat i"] cr by auto
  moreover have "nat_of_digits (c # r) = nat i" using nat_of_digits_str_nat[of "nat i"] cr by simp
  ultimately show ?thesis using False cr by (simp add: int_of_str_def str_int_def)
qed

lemma takeWhile_not_dash: "CHR ''-'' \<notin> set xs \<Longrightarrow> takeWhile not_dash (xs @ CHR ''-'' # ys) = xs"
  by (induction xs) (auto simp: not_dash_def)

lemma dropWhile_not_dash: "CHR ''-'' \<notin> set xs \<Longrightarrow> dropWhile not_dash (xs @ CHR ''-'' # ys) = CHR ''-'' # ys"
  by (induction xs) (auto simp: not_dash_def)

lemma read_label_pair_label: "read_label (pair_label a b) = (a, b)"
proof (cases "a < 0")
  case True
  have l: "pair_label a b = CHR ''-'' # (str_nat (nat (- a)) @ CHR ''-'' # str_int b)"
    using True by (simp add: pair_label_def str_int_def)
  show ?thesis
    unfolding l read_label_def using True
    by (simp add: takeWhile_not_dash dropWhile_not_dash str_nat_no_dash nat_of_digits_str_nat int_of_str_str_int)
next
  case False
  obtain c r where cr: "str_nat (nat a) = c # r"
    using str_nat_nonempty[of "nat a"] by (cases "str_nat (nat a)") auto
  have c: "c \<noteq> CHR ''-''" using str_nat_no_dash[of "nat a"] cr by auto
  have l: "pair_label a b = str_nat (nat a) @ CHR ''-'' # str_int b"
    using False by (simp add: pair_label_def str_int_def)
  have l2: "pair_label a b = c # (r @ CHR ''-'' # str_int b)"
    using l cr by simp
  have t: "takeWhile not_dash (pair_label a b) = str_nat (nat a)"
    unfolding l by (rule takeWhile_not_dash) (rule str_nat_no_dash)
  have d: "dropWhile not_dash (pair_label a b) = CHR ''-'' # str_int b"
    unfolding l by (rule dropWhile_not_dash) (rule str_nat_no_dash)
  have "read_label (c # (r @ CHR ''-'' # str_int b)) =
        (int (nat_of_digits (takeWhile not_dash (c # (r @ CHR ''-'' # str_int b)))),
         int_of_str (drop 1 (dropWhile not_dash (c # (r @ CHR ''-'' # str_int b)))))"
    using c by (simp add: read_label_def)
  then have "read_label (pair_label a b) =
        (int (nat_of_digits (takeWhile not_dash (pair_label a b))),
         int_of_str (drop 1 (dropWhile not_dash (pair_label a b))))"
    unfolding l2 .
  then show ?thesis using False
    by (simp add: t d nat_of_digits_str_nat int_of_str_str_int)
qed

lemma mentions_pair_label [simp]: "mentions s (pair_label a b) = (s = a \<or> s = b)"
  by (simp add: mentions_def read_label_pair_label)

lemma is_self_pair_pair_label [simp]: "is_self_pair (pair_label a b) = (a = b)"
  by (simp add: is_self_pair_def read_label_pair_label)

lemma pair_label_inject: "pair_label a b = pair_label c d \<Longrightarrow> a = c \<and> b = d"
  by (metis read_label_pair_label prod.inject)

lemma foldl_append_loop: "foldl (\<lambda>acc i. acc @ [f i]) acc0 is = acc0 @ map f is"
  by (induction "is" arbitrary: acc0) auto

lemma sorted_set_eq: "sorted_set xs = sorted_list_of_set (set xs)"
  by (simp add: sorted_set_def sorted_list_of_set_sort_remdups)

lemma sorted_set_props: "sorted (sorted_set xs)" "distinct (sorted_set xs)" "set (sorted_set xs) = set xs"
  by (simp_all add: sorted_set_eq)

lemma mirror_pair_eq:
  "mirror_pair xs = map (\<lambda>(a, b). pair_label a b) (mirror_nums (sorted_set xs))"
  by (simp add: mirror_pair_def mirror_nums_def Let_def foldl_append_loop odd_iff_mod_2_eq_one)

lemma mirror_pair_set_eq: "set xs = set ys \<Longrightarrow> mirror_pair xs = mirror_pair ys"
  by (simp add: mirror_pair_def sorted_set_eq)

subsection \<open>Counting in the mirror pairs\<close>


lemma occurrences_labels:
  "occurrences s (map (\<lambda>(a, b). pair_label a b) ps) = length (filter (\<lambda>(a, b). s = a \<or> s = b) ps)"
  by (induction ps) (auto simp: occurrences_def)

lemma self_pair_labels:
  "length (filter is_self_pair (map (\<lambda>(a, b). pair_label a b) ps)) = length (filter (\<lambda>(a, b). a = b) ps)"
  by (induction ps) auto

lemma occurrences_append: "occurrences s (xs @ ys) = occurrences s xs + occurrences s ys"
  by (simp add: occurrences_def)

lemma mirror_indices_in_range: "i < n div 2 \<Longrightarrow> i < (n::nat) \<and> n - 1 - i < n \<and> i < n - 1 - i"
  by arith

lemma length_mirror_nums: "length (mirror_nums S) = (length S + 1) div 2"
  by (simp add: mirror_nums_def)

lemma length_filter_eq_upt: "length (filter (\<lambda>i. i = j) [0..<m]) = (if j < m then 1 else 0)"
  by (induction m) auto

lemma mirror_nums_self:
  assumes "distinct S"
  shows "length (filter (\<lambda>(a, b). a = b) (mirror_nums S)) = (if odd (length S) then 1 else 0)"
proof -
  have "filter (\<lambda>i. S ! i = S ! (length S - 1 - i)) [0..<length S div 2] = []"
  proof -
    have "\<And>i. i < length S div 2 \<Longrightarrow> S ! i \<noteq> S ! (length S - 1 - i)"
    proof -
      fix i assume i: "i < length S div 2"
      then have "i < length S" "length S - 1 - i < length S" "i \<noteq> length S - 1 - i" by arith+
      then show "S ! i \<noteq> S ! (length S - 1 - i)"
        using assms by (simp add: nth_eq_iff_index_eq)
    qed
    then show ?thesis by (auto simp: filter_empty_conv)
  qed
  then show ?thesis
    by (simp add: mirror_nums_def filter_map comp_def)
qed

lemma half_cases:
  fixes n :: nat
  obtains (even) m where "n = 2 * m" "n div 2 = m" "even n"
        | (odd) m where "n = 2 * m + 1" "n div 2 = m" "odd n"
proof (cases "even n")
  case True
  then obtain m where "n = 2 * m" by (auto elim: evenE)
  then show ?thesis using even True by simp
next
  case False
  then obtain m where "n = 2 * m + 1" by (auto elim: oddE)
  then show ?thesis using odd False by simp
qed

lemma mirror_nums_front_occ:
  assumes d: "distinct S" and k: "k < length S"
  shows "length (filter (\<lambda>i. S ! k = S ! i \<or> S ! k = S ! (length S - 1 - i)) [0..<length S div 2])
         = (if odd (length S) \<and> k = length S div 2 then 0 else 1)"
proof -
  define n where "n = length S"
  define m where "m = n div 2"
  have nm: "n = 2 * m \<and> even n \<or> n = 2 * m + 1 \<and> odd n"
    by (rule half_cases[of n]) (simp_all add: m_def)
  have kn: "k < n" using k by (simp add: n_def)
  have iff: "(S ! k = S ! i \<or> S ! k = S ! (n - 1 - i)) = (i = k \<or> i = n - 1 - k)" if i: "i < m" for i
  proof -
    have r: "i < n" "n - 1 - i < n" using i nm by linarith+
    have "(S ! k = S ! i) = (k = i)" using d kn r by (simp add: nth_eq_iff_index_eq n_def)
    moreover have "(S ! k = S ! (n - 1 - i)) = (k = n - 1 - i)"
      using d kn r by (simp add: nth_eq_iff_index_eq n_def)
    moreover have "(k = n - 1 - i) = (i = n - 1 - k)" using kn r by linarith
    ultimately show ?thesis by blast
  qed
  have "k < m \<or> (odd n \<and> k = m) \<or> (n - 1 - k < m \<and> \<not> k < m)"
    using kn nm by linarith
  then consider (lo) "k < m" | (mid) "odd n" "k = m" | (hi) "n - 1 - k < m" "\<not> k < m"
    by blast
  then have "length (filter (\<lambda>i. S ! k = S ! i \<or> S ! k = S ! (n - 1 - i)) [0..<m])
         = (if odd n \<and> k = m then 0 else 1)"
  proof cases
    case lo
    have "filter (\<lambda>i. S ! k = S ! i \<or> S ! k = S ! (n - 1 - i)) [0..<m] = filter (\<lambda>i. i = k) [0..<m]"
    proof (rule filter_cong[OF refl])
      fix i assume "i \<in> set [0..<m]"
      then have i: "i < m" by simp
      have "i \<noteq> n - 1 - k" using lo i nm by linarith
      then show "(S ! k = S ! i \<or> S ! k = S ! (n - 1 - i)) = (i = k)" using iff[OF i] by simp
    qed
    then show ?thesis using lo by (simp add: length_filter_eq_upt)
  next
    case mid
    have "filter (\<lambda>i. S ! k = S ! i \<or> S ! k = S ! (n - 1 - i)) [0..<m] = []"
    proof -
      have "\<not> (S ! k = S ! i \<or> S ! k = S ! (n - 1 - i))" if i: "i < m" for i
      proof -
        have "i \<noteq> k" using mid i by simp
        moreover have "i \<noteq> n - 1 - k" using mid i nm by linarith
        ultimately show ?thesis using iff[OF i] by simp
      qed
      then show ?thesis by (simp add: filter_empty_conv)
    qed
    then show ?thesis using mid by simp
  next
    case hi
    have "filter (\<lambda>i. S ! k = S ! i \<or> S ! k = S ! (n - 1 - i)) [0..<m]
          = filter (\<lambda>i. i = n - 1 - k) [0..<m]"
    proof (rule filter_cong[OF refl])
      fix i assume "i \<in> set [0..<m]"
      then have i: "i < m" by simp
      have "i \<noteq> k" using hi i by linarith
      then show "(S ! k = S ! i \<or> S ! k = S ! (n - 1 - i)) = (i = n - 1 - k)" using iff[OF i] by simp
    qed
    moreover have "\<not> (odd n \<and> k = m)" using hi kn nm by linarith
    ultimately show ?thesis using hi by (simp add: length_filter_eq_upt)
  qed
  then show ?thesis by (simp add: n_def m_def)
qed


lemma mirror_nums_occ_in:
  assumes d: "distinct S" and s: "s \<in> set S"
  shows "length (filter (\<lambda>(a, b). s = a \<or> s = b) (mirror_nums S)) = 1"
proof -
  obtain k where k: "k < length S" and sk: "s = S ! k" using s by (auto simp: in_set_conv_nth)
  have mid: "odd (length S) \<Longrightarrow> (S ! k = S ! (length S div 2)) = (k = length S div 2)"
  proof -
    assume "odd (length S)"
    then have "length S div 2 < length S" by (cases "length S") simp_all
    then show ?thesis using d k by (simp add: nth_eq_iff_index_eq)
  qed
  show ?thesis
    using mirror_nums_front_occ[OF d k] mid
    by (auto simp add: mirror_nums_def filter_map comp_def sk)
qed

lemma mirror_nums_members: "(a, b) \<in> set (mirror_nums S) \<Longrightarrow> a \<in> set S \<and> b \<in> set S"
proof -
  assume ab: "(a, b) \<in> set (mirror_nums S)"
  have "\<And>i. i < length S div 2 \<Longrightarrow> i < length S \<and> length S - 1 - i < length S"
    using mirror_indices_in_range by blast
  moreover have "odd (length S) \<Longrightarrow> length S div 2 < length S" by (cases "length S") simp_all
  ultimately show ?thesis using ab
    by (auto simp: mirror_nums_def split: if_splits)
qed

lemma mirror_nums_occ_out:
  assumes "s \<notin> set S"
  shows "length (filter (\<lambda>(a, b). s = a \<or> s = b) (mirror_nums S)) = 0"
  using assms mirror_nums_members[of _ _ S] by (auto simp: filter_empty_conv)

lemma mirror_nums_ordered:
  assumes "sorted S" "distinct S" "i < length S div 2"
  shows "S ! i < S ! (length S - 1 - i)"
proof -
  have "i < length S - 1 - i" "length S - 1 - i < length S"
    using mirror_indices_in_range[OF assms(3)] by simp_all
  moreover have "sorted_wrt (<) S" using assms by (simp add: strict_sorted_iff)
  ultimately show ?thesis by (simp add: sorted_wrt_nth_less)
qed

subsection \<open>Unfolding \<open>generate_pairs\<close>\<close>

lemma mirror_pair_Nil: "mirror_pair [] = []"
  by (simp add: mirror_pair_def sorted_set_def)

lemma generate_pairs_other:
  "line \<noteq> ''C'' \<Longrightarrow> generate_pairs self line = mirror_pair (get_operational_stations self line)"
  by (simp add: generate_pairs_def Let_def mirror_pair_Nil)

lemma generate_pairs_C:
  "generate_pairs self ''C'' =
     map (\<lambda>s. pair_label s s) (filter (\<lambda>s. s \<in> set (stations self)) (dict_get (fixed_stations self) ''C'' []))
     @ mirror_pair (filter (\<lambda>s. s \<notin> set (filter (\<lambda>s. s \<in> set (stations self)) (dict_get (fixed_stations self) ''C'' []))
                              \<and> s \<notin> set (dict_get (non_operational_stations self) ''C'' []))
                      (stations self))"
  by (simp add: generate_pairs_def Let_def mirror_pair_Nil)

lemma mirror_pair_1_20:
  "mirror_pair [1..20] =
     [''1-20'', ''2-19'', ''3-18'', ''4-17'', ''5-16'', ''6-15'', ''7-14'', ''8-13'', ''9-12'', ''10-11'']"
  by code_simp

lemma get_operational_stations_set:
  "set (get_operational_stations self line)
     = set (stations self) - set (dict_get (non_operational_stations self) line [])"
  by (auto simp: get_operational_stations_def Let_def)

lemma get_operational_stations_none:
  "dict_get (non_operational_stations self) line [] = [] \<Longrightarrow>
   get_operational_stations self line = sort (stations self)"
  by (simp add: get_operational_stations_def)

lemma sort_1_20: "sort [1..20] = [1..20]"
  by (simp add: sorted_sort_id)

lemma sorted_get_operational_stations: "sorted (get_operational_stations self line)"
  by (simp add: get_operational_stations_def Let_def)

lemma get_operational_stations_eq:
  assumes "distinct (stations self)"
  shows "get_operational_stations self line
         = sorted_list_of_set (set (stations self) - set (dict_get (non_operational_stations self) line []))"
proof -
  have "distinct (get_operational_stations self line)"
    using assms by (simp add: get_operational_stations_def Let_def)
  then have "sorted_list_of_set (set (get_operational_stations self line)) = get_operational_stations self line"
    using sorted_get_operational_stations[of self line]
    by (simp add: sorted_list_of_set.idem_if_sorted_distinct)
  then show ?thesis by (simp add: get_operational_stations_set)
qed

lemma dict_get_None: "d k = None \<Longrightarrow> dict_get d k dflt = dflt"
  by (simp add: dict_get_def)

subsection \<open>Claim C4: mirror pairing depends only on the set of stations\<close>

text \<open>
  C4. \<open>mirror_pair\<close> is order-independent: two input collections that hold the same set of
  station numbers, in any order and with any duplication, give the identical list of pair
  labels.
\<close>

theorem mirror_pair_order_independent:
  "set xs = set ys \<Longrightarrow> mirror_pair xs = mirror_pair ys"
  by (rule mirror_pair_set_eq)

theorem mirror_pair_order_independent_witness:
  "set [3, 1, 2, 3 :: int] = set [2, 3, 1] \<and> mirror_pair [3, 1, 2, 3] = mirror_pair [2, 3, 1]"
proof -
  have h: "set [3, 1, 2, 3 :: int] = set [2, 3, 1]" by auto
  show ?thesis using h mirror_pair_order_independent[OF h] by simp
qed

subsection \<open>Claim C1: what mirror pairing emits\<close>

text \<open>
  C1. \<open>mirror_pair\<close> deduplicates and sorts its input into the ascending sequence \<open>S\<close>
  of length \<open>n\<close>, and emits exactly the labels of the pairs \<open>(S[i], S[n-1-i])\<close> for
  \<open>i\<close> from \<open>0\<close> to \<open>n div 2 - 1\<close>, each rendered as low, a dash, high (the first member
  is the smaller one), followed by the self-pair of the middle element \<open>S[n div 2]\<close> when
  \<open>n\<close> is odd. For a line other than C over the universe 1..20 with no unavailable
  station, \<open>generate_pairs\<close> returns the ten labels 1-20, 2-19, ..., 10-11 and no self-pair.
\<close>

theorem mirror_pair_spec:
  "(let S = sorted_list_of_set (set xs); n = length S in
      sorted S \<and> distinct S \<and> set S = set xs
      \<and> mirror_pair xs
          = map (\<lambda>i. pair_label (S ! i) (S ! (n - 1 - i))) [0..<n div 2]
            @ (if odd n then [pair_label (S ! (n div 2)) (S ! (n div 2))] else [])
      \<and> (\<forall>i < n div 2. S ! i < S ! (n - 1 - i)))
   \<and> pair_label a b = str_int a @ ''-'' @ str_int b
   \<and> (line \<noteq> ''C'' \<and> stations self = [1..20]
        \<and> dict_get (non_operational_stations self) line [] = []
      \<longrightarrow> generate_pairs self line
            = [''1-20'', ''2-19'', ''3-18'', ''4-17'', ''5-16'',
               ''6-15'', ''7-14'', ''8-13'', ''9-12'', ''10-11''])"
proof -
  let ?S = "sorted_list_of_set (set xs)"
  have S: "sorted_set xs = ?S" by (rule sorted_set_eq)
  have "mirror_pair xs
          = map (\<lambda>i. pair_label (?S ! i) (?S ! (length ?S - 1 - i))) [0..<length ?S div 2]
            @ (if odd (length ?S) then [pair_label (?S ! (length ?S div 2)) (?S ! (length ?S div 2))] else [])"
    by (simp add: mirror_pair_eq mirror_nums_def S comp_def)
  moreover have "\<forall>i < length ?S div 2. ?S ! i < ?S ! (length ?S - 1 - i)"
    using mirror_nums_ordered[of ?S] by simp
  moreover have "generate_pairs self line
            = [''1-20'', ''2-19'', ''3-18'', ''4-17'', ''5-16'',
               ''6-15'', ''7-14'', ''8-13'', ''9-12'', ''10-11'']"
    if "line \<noteq> ''C''" "stations self = [1..20]" "dict_get (non_operational_stations self) line [] = []"
  proof -
    have "generate_pairs self line = mirror_pair (get_operational_stations self line)"
      using that(1) by (rule generate_pairs_other)
    also have "get_operational_stations self line = sort (stations self)"
      using that(3) by (rule get_operational_stations_none)
    also have "sort (stations self) = [1..20]"
      using that(2) sort_1_20 by simp
    finally show ?thesis by (simp only: mirror_pair_1_20)
  qed
  ultimately show ?thesis
    by (simp add: Let_def pair_label_def)
qed

theorem mirror_pair_spec_witness:
  "''B'' \<noteq> ''C'' \<and> stations init = [1..20] \<and> dict_get (non_operational_stations init) ''B'' [] = []
   \<and> generate_pairs init ''B''
       = [''1-20'', ''2-19'', ''3-18'', ''4-17'', ''5-16'',
          ''6-15'', ''7-14'', ''8-13'', ''9-12'', ''10-11'']"
proof -
  have h: "''B'' \<noteq> ''C'' \<and> stations init = [1..20] \<and> dict_get (non_operational_stations init) ''B'' [] = []"
    by (simp add: init_def STATIONS_def dict_get_def)
  have "''B'' \<noteq> ''C'' \<and> stations init = [1..20] \<and> dict_get (non_operational_stations init) ''B'' [] = []
      \<longrightarrow> generate_pairs init ''B''
            = [''1-20'', ''2-19'', ''3-18'', ''4-17'', ''5-16'',
               ''6-15'', ''7-14'', ''8-13'', ''9-12'', ''10-11'']"
    using mirror_pair_spec[of "[3, 1, 2, 3]" 0 0 "''B''" init] by blast
  with h show ?thesis by blast
qed

subsection \<open>Claim C6: the setters replace the stored set of one line\<close>

text \<open>
  C6. \<open>set_non_operational\<close> and \<open>set_fixed\<close> store for the given line the deduplicated,
  ascending list of the given stations, whatever their range (nothing is checked against
  the station universe); the stored value replaces the former one, so a second call on the
  same line makes the first one unobservable; they always return a state; the stored lists of
  every other line, the other dictionary, the lines and the stations are unchanged.
\<close>

theorem setters_replace:
  "non_operational_stations (set_non_operational self line sts) line = Some (sorted_list_of_set (set sts))
   \<and> (\<forall>l. l \<noteq> line \<longrightarrow>
         non_operational_stations (set_non_operational self line sts) l = non_operational_stations self l)
   \<and> fixed_stations (set_non_operational self line sts) = fixed_stations self
   \<and> stations (set_non_operational self line sts) = stations self
   \<and> lines (set_non_operational self line sts) = lines self
   \<and> set_non_operational (set_non_operational self line old) line sts = set_non_operational self line sts
   \<and> fixed_stations (set_fixed self line sts) line = Some (sorted_list_of_set (set sts))
   \<and> (\<forall>l. l \<noteq> line \<longrightarrow>
         fixed_stations (set_fixed self line sts) l = fixed_stations self l)
   \<and> non_operational_stations (set_fixed self line sts) = non_operational_stations self
   \<and> stations (set_fixed self line sts) = stations self
   \<and> lines (set_fixed self line sts) = lines self
   \<and> set_fixed (set_fixed self line old) line sts = set_fixed self line sts"
  by (simp add: set_non_operational_def set_fixed_def sorted_set_eq)

theorem setters_replace_witness:
  "''C'' \<noteq> ''B''
   \<and> non_operational_stations (set_non_operational init ''B'' [25, 3, 3, 1]) ''C''
       = non_operational_stations init ''C''
   \<and> fixed_stations (set_fixed init ''B'' [25, 3, 3, 1]) ''C'' = fixed_stations init ''C''
   \<and> non_operational_stations (set_non_operational init ''B'' [25, 3, 3, 1]) ''B''
       = Some (sorted_list_of_set (set [25, 3, 3, 1]))"
proof -
  have h: "''C'' \<noteq> ''B''" by simp
  show ?thesis
    using h setters_replace[of init "''B''" "[25, 3, 3, 1]" "[]"] by simp
qed

subsection \<open>Claim C7: fixed stations of other lines are not observable\<close>

text \<open>
  C7. Two engine states that differ only in the fixed-station lists of lines other than C
  give the same output of \<open>generate_pairs\<close> on every line; in particular \<open>set_fixed\<close> on a
  line other than C changes no output of \<open>generate_pairs\<close>.
\<close>

theorem fixed_of_other_lines_unobservable:
  "(stations s1 = stations s2
      \<and> non_operational_stations s1 = non_operational_stations s2
      \<and> fixed_stations s1 ''C'' = fixed_stations s2 ''C''
    \<longrightarrow> generate_pairs s1 l = generate_pairs s2 l)
   \<and> (line \<noteq> ''C'' \<longrightarrow> generate_pairs (set_fixed self line sts) l = generate_pairs self l)"
  by (simp add: generate_pairs_def get_operational_stations_def dict_get_def set_fixed_def)

theorem fixed_of_other_lines_unobservable_witness:
  "''B'' \<noteq> ''C''
   \<and> generate_pairs (set_fixed init ''B'' [1, 2, 3]) ''B'' = generate_pairs init ''B''
   \<and> generate_pairs (set_fixed init ''B'' [1, 2, 3]) ''C'' = generate_pairs init ''C''"
proof -
  have h: "''B'' \<noteq> ''C''" by simp
  show ?thesis
    using h fixed_of_other_lines_unobservable[of init init _ "''B''" init "[1, 2, 3]"]
    by blast
qed

subsection \<open>Claim C8: operable stations, and a line with every station down\<close>

text \<open>
  C8. \<open>get_operational_stations\<close> returns the station universe minus the unavailable
  stations of the line, in ascending order; it is a function of the engine state and the line
  alone. For a line other than C whose unavailable stations cover the whole universe,
  \<open>generate_pairs\<close> returns the empty list.
\<close>

theorem operable_stations_spec:
  "sorted (get_operational_stations self line)
   \<and> set (get_operational_stations self line)
       = set (stations self) - set (dict_get (non_operational_stations self) line [])
   \<and> (distinct (stations self) \<longrightarrow>
        get_operational_stations self line
          = sorted_list_of_set (set (stations self) - set (dict_get (non_operational_stations self) line [])))
   \<and> (line \<noteq> ''C'' \<and> set (stations self) \<subseteq> set (dict_get (non_operational_stations self) line [])
        \<longrightarrow> generate_pairs self line = [])"
proof -
  have "generate_pairs self line = []"
    if "line \<noteq> ''C''" "set (stations self) \<subseteq> set (dict_get (non_operational_stations self) line [])"
  proof -
    have "set (get_operational_stations self line) = {}"
      using that(2) by (auto simp: get_operational_stations_set)
    then show ?thesis using that(1) by (simp add: generate_pairs_def)
  qed
  then show ?thesis
    using sorted_get_operational_stations get_operational_stations_set get_operational_stations_eq
    by blast
qed

theorem operable_stations_spec_witness:
  "''B'' \<noteq> ''C''
   \<and> distinct (stations (set_non_operational init ''B'' [1..20]))
   \<and> set (stations (set_non_operational init ''B'' [1..20]))
       \<subseteq> set (dict_get (non_operational_stations (set_non_operational init ''B'' [1..20])) ''B'' [])
   \<and> generate_pairs (set_non_operational init ''B'' [1..20]) ''B'' = []"
proof -
  have h: "''B'' \<noteq> ''C''
   \<and> distinct (stations (set_non_operational init ''B'' [1..20]))
   \<and> set (stations (set_non_operational init ''B'' [1..20]))
       \<subseteq> set (dict_get (non_operational_stations (set_non_operational init ''B'' [1..20])) ''B'' [])"
    by (simp add: set_non_operational_def init_def STATIONS_def dict_get_def sorted_set_props)
  show ?thesis
    using h operable_stations_spec[of "set_non_operational init ''B'' [1..20]" "''B''"] by blast
qed

subsection \<open>Claim C9: a missing dictionary entry counts as the empty set\<close>

text \<open>
  C9. On the freshly constructed engine, and on any engine over the universe 1..20 for a line
  without an entry in the dictionary of unavailable stations, \<open>get_operational_stations\<close>
  returns the whole universe in ascending order and \<open>generate_pairs\<close> returns the full
  mirror pairing of the universe; for line C this needs no entry in either dictionary, and
  the output then holds no fixed self-pair.
\<close>

theorem missing_entries_default_empty:
  "get_operational_stations init line = [1..20]
   \<and> generate_pairs init line
       = [''1-20'', ''2-19'', ''3-18'', ''4-17'', ''5-16'',
          ''6-15'', ''7-14'', ''8-13'', ''9-12'', ''10-11'']
   \<and> (stations self = [1..20] \<and> non_operational_stations self line = None
        \<longrightarrow> get_operational_stations self line = [1..20])
   \<and> (line \<noteq> ''C'' \<and> stations self = [1..20] \<and> non_operational_stations self line = None
        \<longrightarrow> generate_pairs self line
              = [''1-20'', ''2-19'', ''3-18'', ''4-17'', ''5-16'',
                 ''6-15'', ''7-14'', ''8-13'', ''9-12'', ''10-11''])
   \<and> (stations self = [1..20] \<and> non_operational_stations self ''C'' = None
        \<and> fixed_stations self ''C'' = None
        \<longrightarrow> generate_pairs self ''C''
              = [''1-20'', ''2-19'', ''3-18'', ''4-17'', ''5-16'',
                 ''6-15'', ''7-14'', ''8-13'', ''9-12'', ''10-11''])"
proof -
  have ops: "get_operational_stations s l = [1..20]"
    if "stations s = [1..20]" "non_operational_stations s l = None" for s l
    using that get_operational_stations_none[of s l] sort_1_20
    by (simp add: dict_get_None)
  have other: "generate_pairs s l
              = [''1-20'', ''2-19'', ''3-18'', ''4-17'', ''5-16'',
                 ''6-15'', ''7-14'', ''8-13'', ''9-12'', ''10-11'']"
    if "l \<noteq> ''C''" "stations s = [1..20]" "non_operational_stations s l = None" for s l
    using that ops[of s l] by (simp add: generate_pairs_other mirror_pair_1_20)
  have special: "generate_pairs s ''C''
              = [''1-20'', ''2-19'', ''3-18'', ''4-17'', ''5-16'',
                 ''6-15'', ''7-14'', ''8-13'', ''9-12'', ''10-11'']"
    if "stations s = [1..20]" "non_operational_stations s ''C'' = None" "fixed_stations s ''C'' = None" for s
    using that by (simp add: generate_pairs_C dict_get_None mirror_pair_1_20)
  have i: "stations init = [1..20]" "non_operational_stations init l = None" "fixed_stations init l = None" for l
    by (simp_all add: init_def STATIONS_def)
  have a: "get_operational_stations init line = [1..20]"
    using ops[OF i(1) i(2)] .
  have b: "generate_pairs init line
       = [''1-20'', ''2-19'', ''3-18'', ''4-17'', ''5-16'',
          ''6-15'', ''7-14'', ''8-13'', ''9-12'', ''10-11'']"
  proof (cases "line = ''C''")
    case True
    then show ?thesis using special[OF i(1) i(2) i(3)] by simp
  next
    case False
    then show ?thesis using other[OF _ i(1) i(2)] by simp
  qed
  have c: "stations self = [1..20] \<and> non_operational_stations self line = None
        \<longrightarrow> get_operational_stations self line = [1..20]"
    using ops[of self line] by simp
  have d: "line \<noteq> ''C'' \<and> stations self = [1..20] \<and> non_operational_stations self line = None
        \<longrightarrow> generate_pairs self line
              = [''1-20'', ''2-19'', ''3-18'', ''4-17'', ''5-16'',
                 ''6-15'', ''7-14'', ''8-13'', ''9-12'', ''10-11'']"
    using other[of line self] by simp
  have e: "stations self = [1..20] \<and> non_operational_stations self ''C'' = None
        \<and> fixed_stations self ''C'' = None
        \<longrightarrow> generate_pairs self ''C''
              = [''1-20'', ''2-19'', ''3-18'', ''4-17'', ''5-16'',
                 ''6-15'', ''7-14'', ''8-13'', ''9-12'', ''10-11'']"
    using special[of self] by simp
  show ?thesis by (intro conjI a b c d e)
qed

theorem missing_entries_default_empty_witness:
  "''L'' \<noteq> ''C''
   \<and> stations (set_non_operational init ''B'' [1, 2]) = [1..20]
   \<and> non_operational_stations (set_non_operational init ''B'' [1, 2]) ''L'' = None
   \<and> get_operational_stations (set_non_operational init ''B'' [1, 2]) ''L'' = [1..20]
   \<and> generate_pairs (set_non_operational init ''B'' [1, 2]) ''L''
              = [''1-20'', ''2-19'', ''3-18'', ''4-17'', ''5-16'',
                 ''6-15'', ''7-14'', ''8-13'', ''9-12'', ''10-11'']"
proof -
  have h: "''L'' \<noteq> ''C''
   \<and> stations (set_non_operational init ''B'' [1, 2]) = [1..20]
   \<and> non_operational_stations (set_non_operational init ''B'' [1, 2]) ''L'' = None"
    by (simp add: set_non_operational_def init_def STATIONS_def)
  show ?thesis
    using h missing_entries_default_empty[of "''L''" "set_non_operational init ''B'' [1, 2]"] by blast
qed

subsection \<open>Counting in the output of \<open>mirror_pair\<close>\<close>

lemma length_sorted_set: "length (sorted_set xs) = card (set xs)"
  using distinct_card[of "sorted_set xs"] by (simp add: sorted_set_props)

lemma length_mirror_pair: "length (mirror_pair xs) = (card (set xs) + 1) div 2"
  by (simp add: mirror_pair_eq length_mirror_nums length_sorted_set)

lemma self_pairs_mirror_pair:
  "length (filter is_self_pair (mirror_pair xs)) = (if odd (card (set xs)) then 1 else 0)"
proof -
  have "length (filter is_self_pair (mirror_pair xs))
        = length (filter (\<lambda>(a, b). a = b) (mirror_nums (sorted_set xs)))"
    unfolding mirror_pair_eq by (rule self_pair_labels)
  also have "\<dots> = (if odd (length (sorted_set xs)) then 1 else 0)"
    by (rule mirror_nums_self) (rule sorted_set_props)
  finally show ?thesis by (simp only: length_sorted_set)
qed

lemma occurrences_mirror_pair:
  "occurrences s (mirror_pair xs) = (if s \<in> set xs then 1 else 0)"
proof -
  have eq: "occurrences s (mirror_pair xs)
        = length (filter (\<lambda>(a, b). s = a \<or> s = b) (mirror_nums (sorted_set xs)))"
    unfolding mirror_pair_eq by (rule occurrences_labels)
  show ?thesis
  proof (cases "s \<in> set xs")
    case True
    then have "s \<in> set (sorted_set xs)" by (simp add: sorted_set_props)
    then show ?thesis
      using True mirror_nums_occ_in[OF sorted_set_props(2), of s xs] eq by simp
  next
    case False
    then have "s \<notin> set (sorted_set xs)" by (simp add: sorted_set_props)
    then show ?thesis
      using False mirror_nums_occ_out[of s "sorted_set xs"] eq by simp
  qed
qed

lemma mirror_pair_eq_Nil: "(mirror_pair xs = []) = (set xs = {})"
proof -
  have "(mirror_pair xs = []) = (length (mirror_pair xs) = 0)" by simp
  also have "\<dots> = (card (set xs) = 0)" unfolding length_mirror_pair by linarith
  finally show ?thesis by simp
qed

subsection \<open>Claim C2: lines other than C are partitioned into pairs\<close>

text \<open>
  C2. For a line other than C, let the operable set be the universe minus the unavailable
  stations of the line and \<open>n\<close> its number of distinct elements. Then \<open>generate_pairs\<close>
  returns exactly \<open>ceil(n/2) = (n + 1) div 2\<close> entries, holds exactly one self-pair if and only
  if \<open>n\<close> is odd (and never more than one), every station of the operable set is mentioned by
  exactly one entry, and no other station is mentioned at all. The statement holds for
  \<open>n = 0\<close> too, so the bound \<open>n > 0\<close> of the claim is not needed.
\<close>

theorem partition_other_lines:
  assumes "line \<noteq> ''C''"
  shows "(let ops = set (stations self) - set (dict_get (non_operational_stations self) line []);
              n = card ops;
              out = generate_pairs self line
          in length out = (n + 1) div 2
             \<and> (length (filter is_self_pair out) = 1 \<longleftrightarrow> odd n)
             \<and> length (filter is_self_pair out) \<le> 1
             \<and> (\<forall>s \<in> ops. occurrences s out = 1)
             \<and> (\<forall>s. s \<notin> ops \<longrightarrow> occurrences s out = 0))"
proof -
  have out: "generate_pairs self line = mirror_pair (get_operational_stations self line)"
    using assms by (rule generate_pairs_other)
  show ?thesis
    unfolding Let_def out
    by (simp add: length_mirror_pair self_pairs_mirror_pair occurrences_mirror_pair
          get_operational_stations_set)
qed

theorem partition_other_lines_witness:
  "''B'' \<noteq> ''C''
   \<and> 4 \<in> set (stations (set_non_operational init ''B'' [5, 15, 1]))
         - set (dict_get (non_operational_stations (set_non_operational init ''B'' [5, 15, 1])) ''B'' [])
   \<and> occurrences 4 (generate_pairs (set_non_operational init ''B'' [5, 15, 1]) ''B'') = 1"
proof -
  have h: "''B'' \<noteq> ''C''" by simp
  have m: "4 \<in> set (stations (set_non_operational init ''B'' [5, 15, 1]))
         - set (dict_get (non_operational_stations (set_non_operational init ''B'' [5, 15, 1])) ''B'' [])"
    by (simp add: set_non_operational_def init_def STATIONS_def dict_get_def sorted_set_props)
  have "\<forall>s \<in> set (stations (set_non_operational init ''B'' [5, 15, 1]))
         - set (dict_get (non_operational_stations (set_non_operational init ''B'' [5, 15, 1])) ''B'' []).
          occurrences s (generate_pairs (set_non_operational init ''B'' [5, 15, 1]) ''B'') = 1"
    using partition_other_lines[OF h, of "set_non_operational init ''B'' [5, 15, 1]"]
    unfolding Let_def by (elim conjE)
  with h m show ?thesis by (intro conjI) (assumption, assumption, erule bspec, assumption)
qed

lemma length_filter_eq_distinct:
  "distinct xs \<Longrightarrow> length (filter (\<lambda>x. s = x) xs) = (if s \<in> set xs then 1 else 0)"
  by (induction xs) auto

lemma occurrences_self_labels:
  "occurrences s (map (\<lambda>x. pair_label x x) xs) = length (filter (\<lambda>x. s = x) xs)"
  by (induction xs) (auto simp: occurrences_def)

subsection \<open>Claim C10: line C is partitioned too\<close>

text \<open>
  C10. On line C, when the stored fixed list and the unavailable list share no station (and
  the fixed list has no duplicate, as every list stored by \<open>set_fixed\<close>), every station of
  the universe that is not unavailable is mentioned by exactly one entry of
  \<open>generate_pairs\<close>, a fixed station of the universe by its own self-pair, and every other
  station by no entry; so no station appears twice.
\<close>

theorem partition_special_line:
  assumes "distinct (dict_get (fixed_stations self) ''C'' [])"
    and "set (dict_get (fixed_stations self) ''C'' [])
           \<inter> set (dict_get (non_operational_stations self) ''C'' []) = {}"
  shows "occurrences s (generate_pairs self ''C'')
           = (if s \<in> set (stations self) - set (dict_get (non_operational_stations self) ''C'' [])
              then 1 else 0)
         \<and> (s \<in> set (dict_get (fixed_stations self) ''C'' []) \<and> s \<in> set (stations self)
              \<longrightarrow> pair_label s s \<in> set (generate_pairs self ''C''))"
proof -
  let ?fx = "dict_get (fixed_stations self) ''C'' []"
  let ?un = "dict_get (non_operational_stations self) ''C'' []"
  let ?valid = "filter (\<lambda>s. s \<in> set (stations self)) ?fx"
  let ?rem = "filter (\<lambda>s. s \<notin> set ?valid \<and> s \<notin> set ?un) (stations self)"
  have out: "generate_pairs self ''C'' = map (\<lambda>s. pair_label s s) ?valid @ mirror_pair ?rem"
    by (rule generate_pairs_C)
  have dv: "distinct ?valid" using assms(1) by simp
  have a: "occurrences s (map (\<lambda>s. pair_label s s) ?valid) = (if s \<in> set ?valid then 1 else 0)"
    unfolding occurrences_self_labels by (rule length_filter_eq_distinct[OF dv])
  have b: "occurrences s (mirror_pair ?rem) = (if s \<in> set ?rem then 1 else 0)"
    by (rule occurrences_mirror_pair)
  have sv: "s \<in> set ?valid \<longleftrightarrow> s \<in> set ?fx \<and> s \<in> set (stations self)" by auto
  have sr: "s \<in> set ?rem \<longleftrightarrow> s \<in> set (stations self) \<and> s \<notin> set ?fx \<and> s \<notin> set ?un" by auto
  have nf: "s \<in> set ?fx \<Longrightarrow> s \<notin> set ?un" using assms(2) by auto
  have "occurrences s (generate_pairs self ''C'')
           = (if s \<in> set (stations self) - set ?un then 1 else 0)"
    unfolding out occurrences_append a b sv sr using nf by auto
  moreover have "pair_label s s \<in> set (generate_pairs self ''C'')"
    if "s \<in> set ?fx \<and> s \<in> set (stations self)"
    unfolding out using that by auto
  ultimately show ?thesis by blast
qed

theorem partition_special_line_witness:
  "distinct (dict_get (fixed_stations (set_fixed (set_non_operational init ''C'' [5]) ''C'' [7, 3])) ''C'' [])
   \<and> set (dict_get (fixed_stations (set_fixed (set_non_operational init ''C'' [5]) ''C'' [7, 3])) ''C'' [])
       \<inter> set (dict_get (non_operational_stations (set_fixed (set_non_operational init ''C'' [5]) ''C'' [7, 3])) ''C'' [])
       = {}
   \<and> 3 \<in> set (dict_get (fixed_stations (set_fixed (set_non_operational init ''C'' [5]) ''C'' [7, 3])) ''C'' [])
   \<and> 3 \<in> set (stations (set_fixed (set_non_operational init ''C'' [5]) ''C'' [7, 3]))
   \<and> pair_label 3 3 \<in> set (generate_pairs (set_fixed (set_non_operational init ''C'' [5]) ''C'' [7, 3]) ''C'')"
proof -
  let ?st = "set_fixed (set_non_operational init ''C'' [5]) ''C'' [7, 3]"
  have fx: "dict_get (fixed_stations ?st) ''C'' [] = sorted_set [7, 3]"
    by (simp add: set_fixed_def dict_get_def)
  have un: "dict_get (non_operational_stations ?st) ''C'' [] = sorted_set [5]"
    by (simp add: set_fixed_def set_non_operational_def dict_get_def)
  have h1: "distinct (dict_get (fixed_stations ?st) ''C'' [])"
    unfolding fx by (rule sorted_set_props)
  have h2: "set (dict_get (fixed_stations ?st) ''C'' [])
       \<inter> set (dict_get (non_operational_stations ?st) ''C'' []) = {}"
    unfolding fx un by (simp add: sorted_set_props)
  have h3: "3 \<in> set (dict_get (fixed_stations ?st) ''C'' [])"
    unfolding fx by (simp add: sorted_set_props)
  have h4: "3 \<in> set (stations ?st)"
    by (simp add: set_fixed_def set_non_operational_def init_def STATIONS_def)
  have "pair_label 3 3 \<in> set (generate_pairs ?st ''C'')"
    using partition_special_line[OF h1 h2, of 3] h3 h4 by (elim conjE impE) (rule conjI)
  with h1 h2 h3 h4 show ?thesis by (intro conjI)
qed

subsection \<open>Claim C3: the output on line C\<close>

lemma filter_sorted_distinct_eq:
  assumes "sorted xs" "distinct xs"
  shows "filter (\<lambda>s. s \<in> A) xs = sorted_list_of_set (set xs \<inter> A)"
proof -
  have "sorted (filter (\<lambda>s. s \<in> A) xs)" using assms(1) by (rule sorted_wrt_filter)
  moreover have "distinct (filter (\<lambda>s. s \<in> A) xs)" using assms(2) by simp
  ultimately have "sorted_list_of_set (set (filter (\<lambda>s. s \<in> A) xs)) = filter (\<lambda>s. s \<in> A) xs"
    by (rule sorted_list_of_set.idem_if_sorted_distinct)
  moreover have "set (filter (\<lambda>s. s \<in> A) xs) = set xs \<inter> A" by auto
  ultimately show ?thesis by simp
qed

lemma scenario_C_remaining:
  "mirror_pair (filter (\<lambda>s. s \<notin> set (filter (\<lambda>s. s \<in> set [1..20]) [3, 7]) \<and> s \<notin> set []) [1..20])
     = [''1-20'', ''2-19'', ''4-18'', ''5-17'', ''6-16'', ''8-15'', ''9-14'', ''10-13'', ''11-12'']"
  by code_simp

lemma scenario_C_fixed:
  "map (\<lambda>s. pair_label s s) (filter (\<lambda>s. s \<in> set [1..20]) [3, 7]) = [''3-3'', ''7-7'']"
  by code_simp

text \<open>
  C3. On line C, with \<open>fixed\<close> the stored fixed stations that lie in the universe and
  \<open>remainder\<close> the universe minus \<open>fixed\<close> minus the unavailable stations,
  \<open>generate_pairs\<close> emits first one self-pair for each station of \<open>fixed\<close> in ascending
  order, then, when \<open>remainder\<close> is not empty, the mirror pairs of \<open>remainder\<close>; it
  returns the empty list exactly when \<open>fixed\<close> and \<open>remainder\<close> are both empty. The
  stored fixed list is ascending and duplicate-free, as \<open>set_fixed\<close> stores it. With the
  universe 1..20, fixed stations 3 and 7 and no unavailable station the output is 3-3, 7-7
  and the nine mirror pairs of the remaining eighteen stations.
\<close>

theorem special_line_spec:
  "(sorted (dict_get (fixed_stations self) ''C'' []) \<and> distinct (dict_get (fixed_stations self) ''C'' [])
     \<longrightarrow>
     (let fixed = sorted_list_of_set (set (dict_get (fixed_stations self) ''C'' []) \<inter> set (stations self));
          remainder = set (stations self) - set fixed
                        - set (dict_get (non_operational_stations self) ''C'' []);
          out = generate_pairs self ''C''
      in out = map (\<lambda>s. pair_label s s) fixed
                 @ (if remainder \<noteq> {} then mirror_pair (sorted_list_of_set remainder) else [])
         \<and> (out = [] \<longleftrightarrow> fixed = [] \<and> remainder = {})))
   \<and> (stations self = [1..20] \<and> dict_get (fixed_stations self) ''C'' [] = [3, 7]
        \<and> dict_get (non_operational_stations self) ''C'' [] = []
      \<longrightarrow> generate_pairs self ''C''
            = [''3-3'', ''7-7'', ''1-20'', ''2-19'', ''4-18'', ''5-17'', ''6-16'',
               ''8-15'', ''9-14'', ''10-13'', ''11-12''])"
proof -
  let ?fx = "dict_get (fixed_stations self) ''C'' []"
  let ?un = "dict_get (non_operational_stations self) ''C'' []"
  let ?valid = "filter (\<lambda>s. s \<in> set (stations self)) ?fx"
  let ?rem = "filter (\<lambda>s. s \<notin> set ?valid \<and> s \<notin> set ?un) (stations self)"
  let ?fixed = "sorted_list_of_set (set ?fx \<inter> set (stations self))"
  let ?R = "set (stations self) - set ?fixed - set ?un"
  have out: "generate_pairs self ''C'' = map (\<lambda>s. pair_label s s) ?valid @ mirror_pair ?rem"
    by (rule generate_pairs_C)
  have general: "generate_pairs self ''C'' = map (\<lambda>s. pair_label s s) ?fixed
                 @ (if ?R \<noteq> {} then mirror_pair (sorted_list_of_set ?R) else [])
         \<and> (generate_pairs self ''C'' = [] \<longleftrightarrow> ?fixed = [] \<and> ?R = {})"
    if sd: "sorted ?fx \<and> distinct ?fx"
  proof -
    have v: "?valid = ?fixed"
      using sd by (simp add: filter_sorted_distinct_eq)
    have sr: "set ?rem = ?R" unfolding v[symmetric] by auto
    have fin: "finite ?R" by simp
    have "set (sorted_list_of_set ?R) = set ?rem" using fin sr by simp
    then have m: "mirror_pair (sorted_list_of_set ?R) = mirror_pair ?rem"
      by (rule mirror_pair_set_eq)
    have "(mirror_pair ?rem = []) = (set ?rem = {})" by (rule mirror_pair_eq_Nil)
    then have e: "(mirror_pair ?rem = []) = (?R = {})" by (simp only: sr)
    have 1: "generate_pairs self ''C'' = map (\<lambda>s. pair_label s s) ?fixed
                 @ (if ?R \<noteq> {} then mirror_pair (sorted_list_of_set ?R) else [])"
    proof (cases "?R = {}")
      case True
      then have "mirror_pair ?rem = []" using e by simp
      then show ?thesis using True out v by simp
    next
      case False
      then show ?thesis using out v m by simp
    qed
    have 2: "(generate_pairs self ''C'' = []) \<longleftrightarrow> ?fixed = [] \<and> ?R = {}"
      using out v e by simp
    from 1 2 show ?thesis by (rule conjI)
  qed
  have example: "generate_pairs self ''C''
            = [''3-3'', ''7-7'', ''1-20'', ''2-19'', ''4-18'', ''5-17'', ''6-16'',
               ''8-15'', ''9-14'', ''10-13'', ''11-12'']"
    if h: "stations self = [1..20] \<and> ?fx = [3, 7] \<and> ?un = []"
  proof -
    have "generate_pairs self ''C''
          = map (\<lambda>s. pair_label s s) (filter (\<lambda>s. s \<in> set [1..20]) [3, 7])
            @ mirror_pair (filter (\<lambda>s. s \<notin> set (filter (\<lambda>s. s \<in> set [1..20]) [3, 7]) \<and> s \<notin> set []) [1..20])"
      using h out by simp
    then show ?thesis unfolding scenario_C_remaining scenario_C_fixed by simp
  qed
  show ?thesis
    unfolding Let_def
  proof (intro conjI impI)
    assume a: "sorted ?fx \<and> distinct ?fx"
    show "generate_pairs self ''C'' = map (\<lambda>s. pair_label s s) ?fixed
                 @ (if ?R \<noteq> {} then mirror_pair (sorted_list_of_set ?R) else [])"
      using general[OF a] by (rule conjunct1)
  next
    assume a: "sorted ?fx \<and> distinct ?fx"
    show "(generate_pairs self ''C'' = []) = (?fixed = [] \<and> ?R = {})"
      using general[OF a] by (rule conjunct2)
  next
    assume "stations self = [1..20] \<and> ?fx = [3, 7] \<and> ?un = []"
    then show "generate_pairs self ''C''
            = [''3-3'', ''7-7'', ''1-20'', ''2-19'', ''4-18'', ''5-17'', ''6-16'',
               ''8-15'', ''9-14'', ''10-13'', ''11-12'']"
      by (rule example)
  qed
qed

theorem special_line_spec_witness:
  "stations (set_fixed init ''C'' [7, 3, 3]) = [1..20]
   \<and> dict_get (fixed_stations (set_fixed init ''C'' [7, 3, 3])) ''C'' [] = [3, 7]
   \<and> dict_get (non_operational_stations (set_fixed init ''C'' [7, 3, 3])) ''C'' [] = []
   \<and> sorted (dict_get (fixed_stations (set_fixed init ''C'' [7, 3, 3])) ''C'' [])
   \<and> distinct (dict_get (fixed_stations (set_fixed init ''C'' [7, 3, 3])) ''C'' [])
   \<and> generate_pairs (set_fixed init ''C'' [7, 3, 3]) ''C''
            = [''3-3'', ''7-7'', ''1-20'', ''2-19'', ''4-18'', ''5-17'', ''6-16'',
               ''8-15'', ''9-14'', ''10-13'', ''11-12'']
   \<and> (let fixed = sorted_list_of_set
                      (set (dict_get (fixed_stations (set_fixed init ''C'' [7, 3, 3])) ''C'' [])
                         \<inter> set (stations (set_fixed init ''C'' [7, 3, 3])));
            remainder = set (stations (set_fixed init ''C'' [7, 3, 3])) - set fixed
                          - set (dict_get (non_operational_stations (set_fixed init ''C'' [7, 3, 3])) ''C'' []);
            out = generate_pairs (set_fixed init ''C'' [7, 3, 3]) ''C''
        in out = map (\<lambda>s. pair_label s s) fixed
                   @ (if remainder \<noteq> {} then mirror_pair (sorted_list_of_set remainder) else [])
           \<and> (out = [] \<longleftrightarrow> fixed = [] \<and> remainder = {}))"
proof -
  let ?st = "set_fixed init ''C'' [7, 3, 3]"
  have s: "sorted_set [7, 3, 3] = [3, 7]" by code_simp
  have h1: "stations ?st = [1..20]" by (simp add: set_fixed_def init_def STATIONS_def)
  have h2: "dict_get (fixed_stations ?st) ''C'' [] = [3, 7]"
    by (simp add: set_fixed_def dict_get_def s)
  have h3: "dict_get (non_operational_stations ?st) ''C'' [] = []"
    by (simp add: set_fixed_def init_def dict_get_def)
  have h4: "sorted (dict_get (fixed_stations ?st) ''C'' [])" unfolding h2 by simp
  have h5: "distinct (dict_get (fixed_stations ?st) ''C'' [])" unfolding h2 by simp
  have "stations ?st = [1..20] \<and> dict_get (fixed_stations ?st) ''C'' [] = [3, 7]
        \<and> dict_get (non_operational_stations ?st) ''C'' [] = []
      \<longrightarrow> generate_pairs ?st ''C''
            = [''3-3'', ''7-7'', ''1-20'', ''2-19'', ''4-18'', ''5-17'', ''6-16'',
               ''8-15'', ''9-14'', ''10-13'', ''11-12'']"
    using special_line_spec[of ?st] by (rule conjunct2)
  then have "generate_pairs ?st ''C''
            = [''3-3'', ''7-7'', ''1-20'', ''2-19'', ''4-18'', ''5-17'', ''6-16'',
               ''8-15'', ''9-14'', ''10-13'', ''11-12'']"
    using h1 h2 h3 by (elim impE) (intro conjI)
  moreover note mp[OF conjunct1[OF special_line_spec[of ?st]] conjI[OF h4 h5]]
  ultimately show ?thesis using h1 h2 h3 h4 h5 by (intro conjI)
qed

subsection \<open>Claim C5: the configuration conflict is found by the caller\<close>

lemma foldl_map_upd_lookup:
  "foldl (\<lambda>m k. m(k \<mapsto> f k)) m0 ks k = (if k \<in> set ks then Some (f k) else m0 k)"
  by (induction ks arbitrary: m0) auto

lemma generate_schedule_lookup:
  "fst (generate_schedule self d) = d"
  "snd (generate_schedule self d) l = (if l \<in> set (lines self) then Some (generate_pairs self l) else None)"
  by (simp_all add: generate_schedule_def foldl_map_upd_lookup)

lemma validate_conflict:
  "set (accommodation_c ss) \<inter> set (dict_get (non_operational ss) ''C'' []) \<noteq> {} \<Longrightarrow>
   validate_line_c_configuration ss
     = Inl (ConfigurationConflict
              (sorted_list_of_set (set (accommodation_c ss) \<inter> set (dict_get (non_operational ss) ''C'' []))))"
  by (simp add: validate_line_c_configuration_def Let_def)

lemma validate_ok:
  "set (accommodation_c ss) \<inter> set (dict_get (non_operational ss) ''C'' []) = {} \<Longrightarrow>
   validate_line_c_configuration ss = Inr ()"
  by (simp add: validate_line_c_configuration_def Let_def)

text \<open>
  C5. When the accommodated (fixed) stations and the unavailable stations of line C share a
  station, the validation step rejects the configuration with a \<open>ConfigurationConflict\<close>
  that lists the common stations in ascending order, and the submit branch of \<open>main\<close>
  returns that error without producing a schedule; when they share none, a schedule is
  produced. The engine does not check the overlap again: \<open>generate_schedule\<close> returns the
  date and the pairs of every line on any state, and a station of the universe that is both
  fixed and unavailable still gets its self-pair on line C.
\<close>

theorem configuration_conflict:
  "(set (accommodation_c ss) \<inter> set (dict_get (non_operational ss) ''C'' []) \<noteq> {}
      \<longrightarrow> validate_line_c_configuration ss
            = Inl (ConfigurationConflict
                (sorted_list_of_set (set (accommodation_c ss) \<inter> set (dict_get (non_operational ss) ''C'' []))))
          \<and> main_submitted ss d
            = Inl (ConfigurationConflict
                (sorted_list_of_set (set (accommodation_c ss) \<inter> set (dict_get (non_operational ss) ''C'' [])))))
   \<and> (set (accommodation_c ss) \<inter> set (dict_get (non_operational ss) ''C'' []) = {}
      \<longrightarrow> (\<exists>schedule_data. main_submitted ss d = Inr (d, schedule_data)))
   \<and> fst (generate_schedule self d) = d
   \<and> (\<forall>l \<in> set (lines self). snd (generate_schedule self d) l = Some (generate_pairs self l))
   \<and> (s \<in> set (dict_get (fixed_stations self) ''C'' []) \<and> s \<in> set (stations self)
        \<and> s \<in> set (dict_get (non_operational_stations self) ''C'' [])
      \<longrightarrow> pair_label s s \<in> set (generate_pairs self ''C''))"
proof (intro conjI impI ballI)
  assume c: "set (accommodation_c ss) \<inter> set (dict_get (non_operational ss) ''C'' []) \<noteq> {}"
  show "validate_line_c_configuration ss
            = Inl (ConfigurationConflict
                (sorted_list_of_set (set (accommodation_c ss) \<inter> set (dict_get (non_operational ss) ''C'' []))))"
    using c by (rule validate_conflict)
  then show "main_submitted ss d
            = Inl (ConfigurationConflict
                (sorted_list_of_set (set (accommodation_c ss) \<inter> set (dict_get (non_operational ss) ''C'' []))))"
    by (simp add: main_submitted_def)
next
  assume "set (accommodation_c ss) \<inter> set (dict_get (non_operational ss) ''C'' []) = {}"
  then have "validate_line_c_configuration ss = Inr ()" by (rule validate_ok)
  then show "\<exists>schedule_data. main_submitted ss d = Inr (d, schedule_data)"
    by (simp add: main_submitted_def generate_schedule_def Let_def)
next
  show "fst (generate_schedule self d) = d" by (rule generate_schedule_lookup)
next
  fix l assume "l \<in> set (lines self)"
  then show "snd (generate_schedule self d) l = Some (generate_pairs self l)"
    by (simp add: generate_schedule_lookup)
next
  assume "s \<in> set (dict_get (fixed_stations self) ''C'' []) \<and> s \<in> set (stations self)
        \<and> s \<in> set (dict_get (non_operational_stations self) ''C'' [])"
  then show "pair_label s s \<in> set (generate_pairs self ''C'')"
    unfolding generate_pairs_C by auto
qed

theorem configuration_conflict_witness:
  "set (accommodation_c \<lparr>non_operational = [''C'' \<mapsto> [5]], accommodation_c = [5]\<rparr>)
     \<inter> set (dict_get (non_operational \<lparr>non_operational = [''C'' \<mapsto> [5]], accommodation_c = [5]\<rparr>) ''C'' [])
     \<noteq> {}
   \<and> main_submitted \<lparr>non_operational = [''C'' \<mapsto> [5]], accommodation_c = [5]\<rparr> ''11/03/2026''
       = Inl (ConfigurationConflict [5])"
proof -
  let ?ss = "\<lparr>non_operational = [''C'' \<mapsto> [5]], accommodation_c = [5]\<rparr>"
  have i: "set (accommodation_c ?ss) \<inter> set (dict_get (non_operational ?ss) ''C'' []) = {5}"
    by (simp add: dict_get_def)
  then have h: "set (accommodation_c ?ss) \<inter> set (dict_get (non_operational ?ss) ''C'' []) \<noteq> {}"
    by simp
  have "main_submitted ?ss ''11/03/2026''
            = Inl (ConfigurationConflict
                (sorted_list_of_set (set (accommodation_c ?ss) \<inter> set (dict_get (non_operational ?ss) ''C'' []))))"
    using mp[OF conjunct1[OF configuration_conflict[of ?ss "''11/03/2026''" init 0]] h]
    by (rule conjunct2)
  then have "main_submitted ?ss ''11/03/2026'' = Inl (ConfigurationConflict [5])"
    unfolding i by simp
  with h show ?thesis by (rule conjI)
qed

end
